theory Spec2Isabelle
  imports Main
begin

section \<open>The Todo service: data model\<close>

text \<open>
  The service of \<^verbatim>\<open>main.go\<close> keeps todo items in one SQL table and serves them over HTTP.
  Go's \<^verbatim>\<open>int\<close> is taken at 64 bits, the width of SQLite's row ids, so that the conversion
  \<^verbatim>\<open>int(id)\<close> in \<^verbatim>\<open>Create\<close> changes nothing; ids are modelled as \<open>int\<close>, and the two places
  that look at the 64-bit range (the engine's largest row id and \<^verbatim>\<open>strconv\<close>'s range check)
  write the bound out. A \<^verbatim>\<open>time.Time\<close> is an instant counted from Go's zero time; its location
  is not modelled.
\<close>

type_synonym time = int

record Todo =
  ID :: int
  Title :: string
  Completed :: bool
  CreatedAt :: time

text \<open>The zero value of the struct, what \<^verbatim>\<open>var todo Todo\<close> declares.\<close>

definition zero_Todo :: Todo where
  "zero_Todo = \<lparr>ID = 0, Title = [], Completed = False, CreatedAt = 0\<rparr>"

datatype num_err = ErrSyntax | ErrRange

text \<open>
  The error values the program handles: \<^verbatim>\<open>sql.ErrNoRows\<close>, any other failure the storage
  engine reports (with its message), \<^verbatim>\<open>*strconv.NumError\<close> (the text parsed and the cause),
  and the three failures of \<^verbatim>\<open>encoding/json\<close>: a body that is no JSON value, a value of the
  wrong JSON type for its target (the value's description and the target), and a
  \<^verbatim>\<open>created_at\<close> that \<^verbatim>\<open>time.Time\<close> refuses.
\<close>

datatype error =
    ErrNoRows
  | EngineError string
  | NumError string num_err
  | SyntaxError string
  | UnmarshalTypeError string string
  | TimeUnmarshalError string

section \<open>The storage engine\<close>

text \<open>
  The table \<^verbatim>\<open>todos\<close> of \<^verbatim>\<open>EnsureMigration\<close>: rows \<^verbatim>\<open>(id, title, completed, created_at)\<close> in row-id
  order. \<open>sqlite_sequence\<close> is the largest id the table has ever held (what
  \<^verbatim>\<open>AUTOINCREMENT\<close> keeps), \<open>clock\<close> the engine's \<^verbatim>\<open>CURRENT_TIMESTAMP\<close>. Every statement may
  fail in the engine for reasons outside the program (a lost connection, a locked file):
  \<open>faults\<close> is the script of what the engine does to the coming statements, \<open>None\<close> for
  a statement that runs and \<open>Some msg\<close> for one that fails with that message. An empty
  script means no further failure. A statement that runs may still fail later, while its
  result is stepped through row by row: \<open>breaks\<close> is the script for the coming cursors
  over several rows, \<open>None\<close> for a cursor that delivers every row and \<open>Some (n, msg)\<close>
  for one that delivers \<open>n\<close> rows and then fails with that message. (For a statement that
  yields no row or a single one, such a failure is the statement's own and is in
  \<open>faults\<close>.)
\<close>

type_synonym row = "int \<times> string \<times> bool \<times> time"

record DB =
  todos :: "row list"
  sqlite_sequence :: int
  clock :: time
  faults :: "string option list"
  breaks :: "(nat \<times> string) option list"

definition row_id :: "row \<Rightarrow> int" where
  "row_id r = fst r"

definition begin_stmt :: "DB \<Rightarrow> string option \<times> DB" where
  "begin_stmt db =
     (case faults db of
        [] \<Rightarrow> (None, db)
      | f # fs \<Rightarrow> (f, db\<lparr>faults := fs\<rparr>))"

definition open_cursor :: "DB \<Rightarrow> (nat \<times> string) option \<times> DB" where
  "open_cursor db =
     (case breaks db of
        [] \<Rightarrow> (None, db)
      | b # bs \<Rightarrow> (b, db\<lparr>breaks := bs\<rparr>))"

text \<open>The largest row id: SQLite's \<^verbatim>\<open>INTEGER\<close> is a signed 64-bit number.\<close>

definition max_rowid :: int where
  "max_rowid = 9223372036854775807"

text \<open>
  \<^verbatim>\<open>SELECT id, title, completed, created_at FROM todos\<close> through \<^verbatim>\<open>Query\<close>: an error, or
  the cursor \<^verbatim>\<open>rows\<close>, given by the rows for which \<^verbatim>\<open>rows.Next()\<close> is true and by what
  \<^verbatim>\<open>rows.Err()\<close> holds once \<^verbatim>\<open>rows.Next()\<close> is false.
\<close>

definition Query_all :: "DB \<Rightarrow> (error + row list \<times> error option) \<times> DB" where
  "Query_all db =
     (case begin_stmt db of
        (Some msg, db') \<Rightarrow> (Inl (EngineError msg), db')
      | (None, db') \<Rightarrow>
          (case open_cursor db' of
             (None, db'') \<Rightarrow> (Inr (todos db'', None), db'')
           | (Some (n, msg), db'') \<Rightarrow>
               (Inr (take n (todos db''), Some (EngineError msg)), db'')))"

text \<open>
  \<^verbatim>\<open>SELECT id, title, completed, created_at FROM todos WHERE id = ?\<close> through \<^verbatim>\<open>QueryRow\<close>:
  the first matching row, or \<^verbatim>\<open>sql.ErrNoRows\<close> when there is none.
\<close>

definition QueryRow_id :: "int \<Rightarrow> DB \<Rightarrow> (error + row) \<times> DB" where
  "QueryRow_id i db =
     (case begin_stmt db of
        (Some msg, db') \<Rightarrow> (Inl (EngineError msg), db')
      | (None, db') \<Rightarrow>
          (case find (\<lambda>r. row_id r = i) (todos db') of
             None \<Rightarrow> (Inl ErrNoRows, db')
           | Some r \<Rightarrow> (Inr r, db')))"

text \<open>
  \<^verbatim>\<open>INSERT INTO todos (title) VALUES (?)\<close>. The id is one more than the largest id the table
  holds or has ever held; when that is the largest row id the engine refuses the row
  (\<^verbatim>\<open>SQLITE_FULL\<close>). \<^verbatim>\<open>completed\<close> and \<^verbatim>\<open>created_at\<close> take their column defaults. The result is
  the statement's \<^verbatim>\<open>sql.Result\<close>: the last inserted id and the number of rows affected.
\<close>

definition Exec_insert :: "string \<Rightarrow> DB \<Rightarrow> (error + int \<times> nat) \<times> DB" where
  "Exec_insert title db =
     (case begin_stmt db of
        (Some msg, db') \<Rightarrow> (Inl (EngineError msg), db')
      | (None, db') \<Rightarrow>
          (let m = fold max (map row_id (todos db')) (sqlite_sequence db') in
           if max_rowid \<le> m then (Inl (EngineError ''database or disk is full''), db')
           else (Inr (m + 1, 1),
                 db'\<lparr>todos := todos db' @ [(m + 1, title, False, clock db')],
                     sqlite_sequence := m + 1\<rparr>)))"

definition LastInsertId :: "int \<times> nat \<Rightarrow> error + int" where
  "LastInsertId res = Inr (fst res)"

text \<open>\<^verbatim>\<open>UPDATE todos SET title = ?, completed = ? WHERE id = ?\<close>\<close>

definition set_row :: "string \<Rightarrow> bool \<Rightarrow> int \<Rightarrow> row \<Rightarrow> row" where
  "set_row title completed i r =
     (case r of (j, t, c, ts) \<Rightarrow> if j = i then (j, title, completed, ts) else (j, t, c, ts))"

definition Exec_update :: "string \<Rightarrow> bool \<Rightarrow> int \<Rightarrow> DB \<Rightarrow> (error + nat) \<times> DB" where
  "Exec_update title completed i db =
     (case begin_stmt db of
        (Some msg, db') \<Rightarrow> (Inl (EngineError msg), db')
      | (None, db') \<Rightarrow>
          (Inr (length (filter (\<lambda>r. row_id r = i) (todos db'))),
           db'\<lparr>todos := map (set_row title completed i) (todos db')\<rparr>))"

text \<open>\<^verbatim>\<open>DELETE FROM todos WHERE id = ?\<close>\<close>

definition Exec_delete :: "int \<Rightarrow> DB \<Rightarrow> (error + nat) \<times> DB" where
  "Exec_delete i db =
     (case begin_stmt db of
        (Some msg, db') \<Rightarrow> (Inl (EngineError msg), db')
      | (None, db') \<Rightarrow>
          (Inr (length (filter (\<lambda>r. row_id r = i) (todos db'))),
           db'\<lparr>todos := filter (\<lambda>r. row_id r \<noteq> i) (todos db')\<rparr>))"

text \<open>
  \<^verbatim>\<open>CREATE TABLE IF NOT EXISTS todos (...)\<close>: the table is there afterwards, with the rows it
  had. A database that has never been used is \<open>new_DB\<close>.
\<close>

definition EnsureMigration :: "DB \<Rightarrow> error option \<times> DB" where
  "EnsureMigration db =
     (case begin_stmt db of
        (Some msg, db') \<Rightarrow> (Some (EngineError msg), db')
      | (None, db') \<Rightarrow> (None, db'))"

definition new_DB :: "time \<Rightarrow> string option list \<Rightarrow> (nat \<times> string) option list \<Rightarrow> DB" where
  "new_DB t fs bs = \<lparr>todos = [], sqlite_sequence = 0, clock = t, faults = fs, breaks = bs\<rparr>"

section \<open>The record store \<^verbatim>\<open>TodoSQLStore\<close>\<close>

text \<open>
  \<^verbatim>\<open>Scan(&todo.ID, &todo.Title, &todo.Completed, &todo.CreatedAt)\<close> on a row of the table:
  the four columns have the types of the four fields, so the conversion does not fail.
\<close>

definition todo_of_row :: "row \<Rightarrow> Todo" where
  "todo_of_row r =
     (case r of (i, t, c, ts) \<Rightarrow> \<lparr>ID = i, Title = t, Completed = c, CreatedAt = ts\<rparr>)"

definition Scan :: "row \<Rightarrow> error + Todo" where
  "Scan r = Inr (todo_of_row r)"

text \<open>
  The loop of \<^verbatim>\<open>GetAll\<close> over the rows the cursor delivers: one fresh \<^verbatim>\<open>Todo\<close> per row,
  appended to the slice. After the loop the function returns the slice with a nil error:
  it does not look at \<^verbatim>\<open>rows.Err()\<close>, the second component of the cursor.
\<close>

fun scan_rows :: "row list \<Rightarrow> Todo list \<Rightarrow> error + Todo list" where
  "scan_rows [] acc = Inr acc"
| "scan_rows (r # rs) acc =
     (case Scan r of
        Inl err \<Rightarrow> Inl err
      | Inr todo \<Rightarrow> scan_rows rs (acc @ [todo]))"

definition GetAll :: "DB \<Rightarrow> (error + Todo list) \<times> DB" where
  "GetAll db =
     (case Query_all db of
        (Inl err, db') \<Rightarrow> (Inl err, db')
      | (Inr (rs, rows_err), db') \<Rightarrow>
          (case scan_rows rs [] of
             Inl err \<Rightarrow> (Inl err, db')
           | Inr ts \<Rightarrow> (Inr ts, db')))"

definition GetByID :: "int \<Rightarrow> DB \<Rightarrow> (error + Todo) \<times> DB" where
  "GetByID i db =
     (case QueryRow_id i db of
        (Inl err, db') \<Rightarrow> (Inl err, db')
      | (Inr r, db') \<Rightarrow>
          (case Scan r of
             Inl err \<Rightarrow> (Inl err, db')
           | Inr todo \<Rightarrow> (Inr todo, db')))"

definition Create :: "string \<Rightarrow> DB \<Rightarrow> (error + Todo) \<times> DB" where
  "Create title db =
     (case Exec_insert title db of
        (Inl err, db') \<Rightarrow> (Inl err, db')
      | (Inr res, db') \<Rightarrow>
          (case LastInsertId res of
             Inl err \<Rightarrow> (Inl err, db')
           | Inr i \<Rightarrow> GetByID i db'))"

definition Update :: "Todo \<Rightarrow> DB \<Rightarrow> error option \<times> DB" where
  "Update todo db =
     (case Exec_update (Title todo) (Completed todo) (ID todo) db of
        (Inl err, db') \<Rightarrow> (Some err, db')
      | (Inr _, db') \<Rightarrow> (None, db'))"

definition Delete :: "int \<Rightarrow> DB \<Rightarrow> error option \<times> DB" where
  "Delete i db =
     (case Exec_delete i db of
        (Inl err, db') \<Rightarrow> (Some err, db')
      | (Inr _, db') \<Rightarrow> (None, db'))"

text \<open>The ids the table holds, and the primary-key constraint on them.\<close>

definition ids :: "DB \<Rightarrow> int list" where
  "ids db = map row_id (todos db)"

definition primary_key :: "DB \<Rightarrow> bool" where
  "primary_key db = distinct (ids db)"

text \<open>The columns of a row.\<close>

definition row_title :: "row \<Rightarrow> string" where
  "row_title r = fst (snd r)"

definition row_completed :: "row \<Rightarrow> bool" where
  "row_completed r = fst (snd (snd r))"

definition row_created_at :: "row \<Rightarrow> time" where
  "row_created_at r = snd (snd (snd r))"

text \<open>What the engine has in store for the next statement: the message it fails with, if any.\<close>

definition pending :: "DB \<Rightarrow> string option" where
  "pending db = fst (begin_stmt db)"

section \<open>Library functions the handlers call\<close>

subsection \<open>\<^verbatim>\<open>strconv.Atoi\<close>\<close>

definition is_digit :: "char \<Rightarrow> bool" where
  "is_digit c = (48 \<le> (of_char c :: int) \<and> (of_char c :: int) \<le> 57)"

definition digit_val :: "char \<Rightarrow> int" where
  "digit_val c = of_char c - 48"

text \<open>
  The digit loop of \<^verbatim>\<open>ParseUint\<close> in base 10 at 64 bits: a byte that is no digit is a syntax
  error, and the value leaving the unsigned 64-bit range is a range error, whichever
  comes first from the left. The accumulator is a \<^verbatim>\<open>uint64\<close>, here a number that the two
  range checks keep below \<open>2 ^ 64\<close>.
\<close>

fun parse_digits :: "string \<Rightarrow> int \<Rightarrow> num_err + int" where
  "parse_digits [] n = Inr n"
| "parse_digits (c # cs) n =
     (if \<not> is_digit c then Inl ErrSyntax
      else if 18446744073709551615 div 10 + 1 \<le> n then Inl ErrRange
      else if 18446744073709551615 < n * 10 + digit_val c then Inl ErrRange
      else parse_digits cs (n * 10 + digit_val c))"

definition ParseUint :: "string \<Rightarrow> num_err + int" where
  "ParseUint s = (if s = [] then Inl ErrSyntax else parse_digits s 0)"

text \<open>
  \<^verbatim>\<open>ParseInt(s, 10, 64)\<close>: an optional sign, then \<^verbatim>\<open>ParseUint\<close>, then the signed range.
\<close>

definition signed_range :: "bool \<Rightarrow> int \<Rightarrow> num_err + int" where
  "signed_range neg un =
     (if \<not> neg \<and> 9223372036854775808 \<le> un then Inl ErrRange
      else if neg \<and> 9223372036854775808 < un then Inl ErrRange
      else Inr (if neg then - un else un))"

fun ParseInt :: "string \<Rightarrow> num_err + int" where
  "ParseInt [] = Inl ErrSyntax"
| "ParseInt (c # cs) =
     (let neg = (c = CHR ''-'');
          ds = (if c = CHR ''+'' \<or> c = CHR ''-'' then cs else c # cs)
      in case ParseUint ds of
           Inl e \<Rightarrow> Inl e
         | Inr un \<Rightarrow> signed_range neg un)"

text \<open>
  \<^verbatim>\<open>Atoi\<close> is \<^verbatim>\<open>ParseInt(s, 10, 0)\<close> with the error renamed (its fast path for short strings
  computes the same); the error carries the text that was parsed.
\<close>

definition Atoi :: "string \<Rightarrow> error + int" where
  "Atoi s = (case ParseInt s of Inl e \<Rightarrow> Inl (NumError s e) | Inr n \<Rightarrow> Inr n)"

subsection \<open>\<^verbatim>\<open>encoding/json\<close>: decoding into a \<^verbatim>\<open>Todo\<close>\<close>

text \<open>
  A JSON value as the decoder's scanner delivers it. A number keeps its literal: the
  decoder converts it only when it knows the target's type.
\<close>

datatype json =
    JNull
  | JBool bool
  | JNumber string
  | JString string
  | JArray "json list"
  | JObject "(string \<times> json) list"

fun json_kind :: "json \<Rightarrow> string" where
  "json_kind JNull = ''null''"
| "json_kind (JBool _) = ''bool''"
| "json_kind (JNumber _) = ''number''"
| "json_kind (JString _) = ''string''"
| "json_kind (JArray _) = ''array''"
| "json_kind (JObject _) = ''object''"

text \<open>
  An object key selects the struct field whose JSON name it equals, letter case aside: the
  decoder compares the names with ASCII letters in upper case.
\<close>

definition upper :: "char \<Rightarrow> char" where
  "upper c =
     (if 97 \<le> (of_char c :: int) \<and> (of_char c :: int) \<le> 122
      then char_of (of_char c - 32 :: int) else c)"

definition fold_name :: "string \<Rightarrow> string" where
  "fold_name s = map upper s"

text \<open>
  One member of the object. \<^verbatim>\<open>null\<close> leaves any field as it is, and a key that names no field
  is skipped. A value of the wrong JSON type for \<^verbatim>\<open>id\<close>, \<^verbatim>\<open>title\<close> or \<^verbatim>\<open>completed\<close> is recorded
  (second component) and decoding goes on; \<^verbatim>\<open>created_at\<close> goes through
  \<^verbatim>\<open>time.Time.UnmarshalJSON\<close>, whose error ends the decoding at once (\<open>Inl\<close>). How
  \<^verbatim>\<open>time.Time\<close> reads an RFC 3339 string is the parameter \<open>parse_time\<close>.
\<close>

definition store_field ::
  "(string \<Rightarrow> time option) \<Rightarrow> string \<Rightarrow> json \<Rightarrow> Todo \<Rightarrow> error + (error option \<times> Todo)" where
  "store_field parse_time key v todo =
     (let name = fold_name key in
      if v = JNull then Inr (None, todo)
      else if name = ''ID'' then
        (case v of
           JNumber lit \<Rightarrow>
             (case ParseInt lit of
                Inr n \<Rightarrow> Inr (None, todo\<lparr>ID := n\<rparr>)
              | Inl _ \<Rightarrow> Inr (Some (UnmarshalTypeError (''number '' @ lit) ''id''), todo))
         | _ \<Rightarrow> Inr (Some (UnmarshalTypeError (json_kind v) ''id''), todo))
      else if name = ''TITLE'' then
        (case v of
           JString s \<Rightarrow> Inr (None, todo\<lparr>Title := s\<rparr>)
         | _ \<Rightarrow> Inr (Some (UnmarshalTypeError (json_kind v) ''title''), todo))
      else if name = ''COMPLETED'' then
        (case v of
           JBool b \<Rightarrow> Inr (None, todo\<lparr>Completed := b\<rparr>)
         | _ \<Rightarrow> Inr (Some (UnmarshalTypeError (json_kind v) ''completed''), todo))
      else if name = ''CREATED_AT'' then
        (case v of
           JString s \<Rightarrow>
             (case parse_time s of
                Some ts \<Rightarrow> Inr (None, todo\<lparr>CreatedAt := ts\<rparr>)
              | None \<Rightarrow> Inl (TimeUnmarshalError s))
         | _ \<Rightarrow> Inl (TimeUnmarshalError (json_kind v)))
      else Inr (None, todo))"

text \<open>The members in order; a later member overwrites an earlier one, the first recorded
  error is the one kept.\<close>

fun decode_fields ::
  "(string \<Rightarrow> time option) \<Rightarrow> (string \<times> json) list \<Rightarrow> error option \<Rightarrow> Todo
     \<Rightarrow> error + (error option \<times> Todo)" where
  "decode_fields parse_time [] saved todo = Inr (saved, todo)"
| "decode_fields parse_time ((key, v) # fs) saved todo =
     (case store_field parse_time key v todo of
        Inl err \<Rightarrow> Inl err
      | Inr (e, todo') \<Rightarrow>
          decode_fields parse_time fs (if saved = None then e else saved) todo')"

text \<open>A JSON value into a \<^verbatim>\<open>Todo\<close> struct: \<^verbatim>\<open>null\<close> changes nothing, an object fills the
  fields, anything else has the wrong type.\<close>

definition unmarshal_Todo :: "(string \<Rightarrow> time option) \<Rightarrow> json \<Rightarrow> Todo \<Rightarrow> error + Todo" where
  "unmarshal_Todo parse_time v todo =
     (case v of
        JNull \<Rightarrow> Inr todo
      | JObject fs \<Rightarrow>
          (case decode_fields parse_time fs None todo of
             Inl err \<Rightarrow> Inl err
           | Inr (Some err, _) \<Rightarrow> Inl err
           | Inr (None, todo') \<Rightarrow> Inr todo')
      | _ \<Rightarrow> Inl (UnmarshalTypeError (json_kind v) ''Todo''))"

text \<open>
  \<^verbatim>\<open>json.NewDecoder(r.Body).Decode(&todo)\<close>. The request body is what the scanner makes of
  it: \<open>Inl\<close> the error for a body that does not start with a JSON value (an empty body
  included), \<open>Inr\<close> the first value. With \<^verbatim>\<open>todo\<close> a \<^verbatim>\<open>Todo\<close> (the PUT handler) the value is
  decoded into the struct; with \<^verbatim>\<open>todo\<close> a nil \<^verbatim>\<open>*Todo\<close> (the POST handler) \<^verbatim>\<open>null\<close> leaves the
  pointer nil (\<open>None\<close>) and any other value is decoded into a newly allocated struct.
\<close>

definition Decode_Todo :: "(string \<Rightarrow> time option) \<Rightarrow> error + json \<Rightarrow> Todo \<Rightarrow> error + Todo" where
  "Decode_Todo parse_time body todo =
     (case body of
        Inl err \<Rightarrow> Inl err
      | Inr v \<Rightarrow> unmarshal_Todo parse_time v todo)"

definition Decode_Todo_ptr :: "(string \<Rightarrow> time option) \<Rightarrow> error + json \<Rightarrow> error + Todo option" where
  "Decode_Todo_ptr parse_time body =
     (case body of
        Inl err \<Rightarrow> Inl err
      | Inr JNull \<Rightarrow> Inr None
      | Inr v \<Rightarrow>
          (case unmarshal_Todo parse_time v zero_Todo of
             Inl err \<Rightarrow> Inl err
           | Inr todo \<Rightarrow> Inr (Some todo)))"

text \<open>
  The shape of a Todo in JSON, member by member, as the interface describes it: \<^verbatim>\<open>id\<close> an
  integer (a literal without fraction or exponent, in the 64-bit range), \<^verbatim>\<open>title\<close> a string,
  \<^verbatim>\<open>completed\<close> a boolean, \<^verbatim>\<open>created_at\<close> an RFC 3339 timestamp; \<^verbatim>\<open>null\<close> and members of other
  names are allowed anywhere. This is not taken from the decoder: the lemmas
  \<open>decode_fields_typed\<close> and \<open>decode_fields_untyped\<close> compare the two.
\<close>

definition member_has_type :: "(string \<Rightarrow> time option) \<Rightarrow> string \<times> json \<Rightarrow> bool" where
  "member_has_type parse_time kv =
     (case kv of (key, v) \<Rightarrow>
        (case v of
           JNull \<Rightarrow> True
         | JBool _ \<Rightarrow> fold_name key \<notin> {''ID'', ''TITLE'', ''CREATED_AT''}
         | JNumber lit \<Rightarrow>
             fold_name key \<notin> {''TITLE'', ''COMPLETED'', ''CREATED_AT''}
             \<and> (fold_name key = ''ID'' \<longrightarrow> (case ParseInt lit of Inr _ \<Rightarrow> True | Inl _ \<Rightarrow> False))
         | JString s \<Rightarrow>
             fold_name key \<notin> {''ID'', ''COMPLETED''}
             \<and> (fold_name key = ''CREATED_AT'' \<longrightarrow> parse_time s \<noteq> None)
         | _ \<Rightarrow> fold_name key \<notin> {''ID'', ''TITLE'', ''COMPLETED'', ''CREATED_AT''}))"

section \<open>The HTTP handlers\<close>

text \<open>
  A request is its method, its URL path and its body. What a handler does is either a
  response, with its status and what was written, or a panic (which \<^verbatim>\<open>net/http\<close> recovers
  by dropping the connection, with no response). \<^verbatim>\<open>http.Error(w, err.Error(), code)\<close>
  writes the error's message, represented by the error itself; the JSON encoder writes a
  \<^verbatim>\<open>Todo\<close> or a list of them, represented by the values encoded, with the default
  status 200.
\<close>

record Request =
  Method :: string
  Path :: string
  Body :: "error + json"

datatype content =
    Empty
  | ErrorText error
  | Text string
  | JSONTodo Todo
  | JSONTodos "Todo list"

datatype outcome = Respond int content | Panicked

text \<open>
  \<^verbatim>\<open>json.NewEncoder(w).Encode\<close> of the values the handlers pass: an int, a string, a bool and
  a time read from the table or from RFC 3339 text, none of which the encoder refuses.
\<close>

definition Encode_Todo :: "Todo \<Rightarrow> error + content" where
  "Encode_Todo todo = Inr (JSONTodo todo)"

definition Encode_Todos :: "Todo list \<Rightarrow> error + content" where
  "Encode_Todos ts = Inr (JSONTodos ts)"

text \<open>The handler registered for \<^verbatim>\<open>/todos\<close>.\<close>

definition todos_handler :: "(string \<Rightarrow> time option) \<Rightarrow> Request \<Rightarrow> DB \<Rightarrow> outcome \<times> DB" where
  "todos_handler parse_time r db =
     (if Method r = ''GET'' then
        (case GetAll db of
           (Inl err, db') \<Rightarrow> (Respond 500 (ErrorText err), db')
         | (Inr ts, db') \<Rightarrow>
             (case Encode_Todos ts of
                Inl err \<Rightarrow> (Respond 500 (ErrorText err), db')
              | Inr c \<Rightarrow> (Respond 200 c, db')))
      else if Method r = ''POST'' then
        (case Decode_Todo_ptr parse_time (Body r) of
           Inl err \<Rightarrow> (Respond 400 (ErrorText err), db)
         | Inr None \<Rightarrow> (Panicked, db)
         | Inr (Some todo) \<Rightarrow>
             (case Create (Title todo) db of
                (Inl err, db') \<Rightarrow> (Respond 500 (ErrorText err), db')
              | (Inr todo', db') \<Rightarrow>
                  (case Encode_Todo todo' of
                     Inl err \<Rightarrow> (Respond 500 (ErrorText err), db')
                   | Inr c \<Rightarrow> (Respond 200 c, db'))))
      else (Respond 405 (Text ''Method not allowed''), db))"

text \<open>
  The handler registered for \<^verbatim>\<open>/todos/\<close>. The id is the path from its eighth byte on; slicing
  a shorter path panics.
\<close>

definition todo_handler :: "(string \<Rightarrow> time option) \<Rightarrow> Request \<Rightarrow> DB \<Rightarrow> outcome \<times> DB" where
  "todo_handler parse_time r db =
     (if length (Path r) < length ''/todos/'' then (Panicked, db)
      else
        (case Atoi (drop (length ''/todos/'') (Path r)) of
           Inl err \<Rightarrow> (Respond 400 (ErrorText err), db)
         | Inr i \<Rightarrow>
             if Method r = ''GET'' then
               (case GetByID i db of
                  (Inl err, db') \<Rightarrow> (Respond 500 (ErrorText err), db')
                | (Inr todo, db') \<Rightarrow>
                    (case Encode_Todo todo of
                       Inl err \<Rightarrow> (Respond 500 (ErrorText err), db')
                     | Inr c \<Rightarrow> (Respond 200 c, db')))
             else if Method r = ''PUT'' then
               (case Decode_Todo parse_time (Body r) zero_Todo of
                  Inl err \<Rightarrow> (Respond 400 (ErrorText err), db)
                | Inr todo \<Rightarrow>
                    (case Update (todo\<lparr>ID := i\<rparr>) db of
                       (Some err, db') \<Rightarrow> (Respond 500 (ErrorText err), db')
                     | (None, db') \<Rightarrow>
                         (case Encode_Todo (todo\<lparr>ID := i\<rparr>) of
                            Inl err \<Rightarrow> (Respond 500 (ErrorText err), db')
                          | Inr c \<Rightarrow> (Respond 200 c, db'))))
             else if Method r = ''DELETE'' then
               (case Delete i db of
                  (Some err, db') \<Rightarrow> (Respond 500 (ErrorText err), db')
                | (None, db') \<Rightarrow> (Respond 200 Empty, db'))
             else (Respond 405 (Text ''Method not allowed''), db)))"

section \<open>The record store: auxiliary facts\<close>

lemma scan_rows_eq: "scan_rows rs acc = Inr (acc @ map todo_of_row rs)"
  by (induction rs arbitrary: acc) (auto simp: Scan_def)

lemma fold_max_ge: "(a::int) \<le> fold max xs a"
  by (induction xs arbitrary: a) (auto intro: order_trans [OF max.cobounded2])

lemma fold_max_mem: "x \<in> set xs \<Longrightarrow> (x::int) \<le> fold max xs a"
proof (induction xs arbitrary: a)
  case Nil then show ?case by simp
next
  case (Cons y ys)
  show ?case
  proof (cases "x = y")
    case True
    have "max y a \<le> fold max ys (max y a)" by (rule fold_max_ge)
    with True show ?thesis by simp
  next
    case False
    with Cons show ?thesis by simp
  qed
qed

lemma begin_stmt_todos [simp]: "todos (snd (begin_stmt db)) = todos db"
  and begin_stmt_seq [simp]: "sqlite_sequence (snd (begin_stmt db)) = sqlite_sequence db"
  and begin_stmt_clock [simp]: "clock (snd (begin_stmt db)) = clock db"
  and begin_stmt_breaks [simp]: "breaks (snd (begin_stmt db)) = breaks db"
  by (auto simp: begin_stmt_def split: list.splits)

lemma open_cursor_todos [simp]: "todos (snd (open_cursor db)) = todos db"
  and open_cursor_seq [simp]: "sqlite_sequence (snd (open_cursor db)) = sqlite_sequence db"
  and open_cursor_clock [simp]: "clock (snd (open_cursor db)) = clock db"
  and open_cursor_faults [simp]: "faults (snd (open_cursor db)) = faults db"
  by (auto simp: open_cursor_def split: list.splits)

lemma open_cursor_whole: "breaks db = [] \<Longrightarrow> open_cursor db = (None, db)"
  by (simp add: open_cursor_def)

lemma begin_stmt_eq: "begin_stmt db = (pending db, snd (begin_stmt db))"
  by (simp add: pending_def)

lemma find_fresh: "\<forall>r \<in> set rs. row_id r \<noteq> i \<Longrightarrow> find (\<lambda>r. row_id r = i) (rs @ [r']) = (if row_id r' = i then Some r' else None)"
  by (induction rs) auto

lemma GetByID_run:
  "GetByID i db =
     (case pending db of
        Some msg \<Rightarrow> (Inl (EngineError msg), snd (begin_stmt db))
      | None \<Rightarrow> (case find (\<lambda>r. row_id r = i) (todos db) of
                  None \<Rightarrow> (Inl ErrNoRows, snd (begin_stmt db))
                | Some r \<Rightarrow> (Inr (todo_of_row r), snd (begin_stmt db))))"
  unfolding GetByID_def QueryRow_id_def Scan_def
  by (subst begin_stmt_eq) (simp split: option.splits)


lemma Exec_insert_run:
  "Exec_insert T db =
     (case pending db of
        Some msg \<Rightarrow> (Inl (EngineError msg), snd (begin_stmt db))
      | None \<Rightarrow>
          (let m = fold max (ids db) (sqlite_sequence db) in
           if max_rowid \<le> m
           then (Inl (EngineError ''database or disk is full''), snd (begin_stmt db))
           else (Inr (m + 1, 1),
                 (snd (begin_stmt db))\<lparr>todos := todos db @ [(m + 1, T, False, clock db)],
                     sqlite_sequence := m + 1\<rparr>)))"
  unfolding Exec_insert_def ids_def
  by (subst begin_stmt_eq) (simp add: Let_def split: option.splits)

lemma pending_upd [simp]:
  "pending (db\<lparr>todos := rs\<rparr>) = pending db"
  "pending (db\<lparr>sqlite_sequence := n\<rparr>) = pending db"
  by (auto simp: pending_def begin_stmt_def split: list.splits)

lemma begin_stmt_upd [simp]:
  "todos (snd (begin_stmt (db\<lparr>todos := rs, sqlite_sequence := n\<rparr>))) = rs"
  by (simp add: begin_stmt_def split: list.splits)

lemma find_new_row:
  "find (\<lambda>r. row_id r = fold max (map row_id rs) a + 1) (rs @ [(fold max (map row_id rs) a + 1, x)])
     = Some (fold max (map row_id rs) a + 1, x)"
proof -
  have "\<forall>r \<in> set rs. row_id r \<noteq> fold max (map row_id rs) a + 1"
  proof
    fix r assume "r \<in> set rs"
    then have "row_id r \<le> fold max (map row_id rs) a"
      by (intro fold_max_mem) simp
    then show "row_id r \<noteq> fold max (map row_id rs) a + 1" by simp
  qed
  from find_fresh [OF this, of "(fold max (map row_id rs) a + 1, x)"]
  show ?thesis by (simp add: row_id_def)
qed

lemma Create_Inr:
  assumes "Create T db = (Inr t, db')"
  shows "pending db = None"
    and "fold max (ids db) (sqlite_sequence db) < max_rowid"
    and "t = \<lparr>ID = fold max (ids db) (sqlite_sequence db) + 1, Title = T, Completed = False, CreatedAt = clock db\<rparr>"
    and "todos db' = todos db @ [(ID t, T, False, clock db)]"
  using assms find_new_row [of "todos db" "sqlite_sequence db" "(T, False, clock db)"]
  unfolding Create_def Exec_insert_run GetByID_run LastInsertId_def ids_def
  by (auto simp: Let_def todo_of_row_def split: option.splits if_splits)


lemma Create_run:
  "Create T db =
     (let m = fold max (ids db) (sqlite_sequence db);
          db1 = snd (begin_stmt db);
          db2 = db1\<lparr>todos := todos db @ [(m + 1, T, False, clock db)], sqlite_sequence := m + 1\<rparr>
      in case pending db of
           Some msg \<Rightarrow> (Inl (EngineError msg), db1)
         | None \<Rightarrow>
             if max_rowid \<le> m then (Inl (EngineError ''database or disk is full''), db1)
             else
               (case pending db2 of
                  Some msg \<Rightarrow> (Inl (EngineError msg), snd (begin_stmt db2))
                | None \<Rightarrow>
                    (Inr \<lparr>ID = m + 1, Title = T, Completed = False, CreatedAt = clock db\<rparr>,
                     snd (begin_stmt db2))))"
  using find_new_row [of "todos db" "sqlite_sequence db" "(T, False, clock db)"]
  unfolding Create_def Exec_insert_run GetByID_run LastInsertId_def ids_def
  by (simp add: Let_def todo_of_row_def split: option.splits)

lemma Exec_update_run:
  "Exec_update T c i db =
     (case pending db of
        Some msg \<Rightarrow> (Inl (EngineError msg), snd (begin_stmt db))
      | None \<Rightarrow>
          (Inr (length (filter (\<lambda>r. row_id r = i) (todos db))),
           (snd (begin_stmt db))\<lparr>todos := map (set_row T c i) (todos db)\<rparr>))"
  unfolding Exec_update_def
  by (subst begin_stmt_eq) (simp split: option.splits)

lemma Exec_delete_run:
  "Exec_delete i db =
     (case pending db of
        Some msg \<Rightarrow> (Inl (EngineError msg), snd (begin_stmt db))
      | None \<Rightarrow>
          (Inr (length (filter (\<lambda>r. row_id r = i) (todos db))),
           (snd (begin_stmt db))\<lparr>todos := filter (\<lambda>r. row_id r \<noteq> i) (todos db)\<rparr>))"
  unfolding Exec_delete_def
  by (subst begin_stmt_eq) (simp split: option.splits)

lemma Query_all_run:
  "Query_all db =
     (case pending db of
        Some msg \<Rightarrow> (Inl (EngineError msg), snd (begin_stmt db))
      | None \<Rightarrow>
          (case fst (open_cursor (snd (begin_stmt db))) of
             None \<Rightarrow> (Inr (todos db, None), snd (open_cursor (snd (begin_stmt db))))
           | Some (n, msg) \<Rightarrow>
               (Inr (take n (todos db), Some (EngineError msg)),
                snd (open_cursor (snd (begin_stmt db))))))"
  unfolding Query_all_def
  using open_cursor_todos [of "snd (begin_stmt db)"]
  by (subst begin_stmt_eq, cases "open_cursor (snd (begin_stmt db))")
     (auto split: option.splits)

lemma GetAll_run:
  "GetAll db =
     (case pending db of
        Some msg \<Rightarrow> (Inl (EngineError msg), snd (begin_stmt db))
      | None \<Rightarrow>
          (case fst (open_cursor (snd (begin_stmt db))) of
             None \<Rightarrow> (Inr (map todo_of_row (todos db)), snd (open_cursor (snd (begin_stmt db))))
           | Some (n, msg) \<Rightarrow>
               (Inr (map todo_of_row (take n (todos db))),
                snd (open_cursor (snd (begin_stmt db))))))"
  unfolding GetAll_def Query_all_run
  by (simp add: scan_rows_eq split: option.splits prod.splits)

lemma GetAll_whole:
  assumes "breaks db = []"
  shows "GetAll db =
     (case pending db of
        Some msg \<Rightarrow> (Inl (EngineError msg), snd (begin_stmt db))
      | None \<Rightarrow> (Inr (map todo_of_row (todos db)), snd (begin_stmt db)))"
  unfolding GetAll_run using open_cursor_whole [of "snd (begin_stmt db)"] assms
  by (simp split: option.splits)

lemma Update_run:
  "Update todo db =
     (case pending db of
        Some msg \<Rightarrow> (Some (EngineError msg), snd (begin_stmt db))
      | None \<Rightarrow> (None, (snd (begin_stmt db))
                   \<lparr>todos := map (set_row (Title todo) (Completed todo) (ID todo)) (todos db)\<rparr>))"
  unfolding Update_def Exec_update_run
  by (simp split: option.splits)

lemma Delete_run:
  "Delete i db =
     (case pending db of
        Some msg \<Rightarrow> (Some (EngineError msg), snd (begin_stmt db))
      | None \<Rightarrow> (None, (snd (begin_stmt db))\<lparr>todos := filter (\<lambda>r. row_id r \<noteq> i) (todos db)\<rparr>))"
  unfolding Delete_def Exec_delete_run
  by (simp split: option.splits)

lemma row_id_set_row: "row_id (set_row T c i r) = row_id r"
  by (cases r) (simp add: set_row_def row_id_def)

lemma row_created_at_set_row: "row_created_at (set_row T c i r) = row_created_at r"
  by (cases r) (simp add: set_row_def row_created_at_def)


lemma set_row_miss: "row_id r \<noteq> i \<Longrightarrow> set_row T c i r = r"
  by (cases r) (simp add: set_row_def row_id_def)


lemma not_in_ids: "i \<notin> set (map row_id rs) \<Longrightarrow> \<forall>r \<in> set rs. row_id r \<noteq> i"
  by (simp add: image_iff) blast

lemma find_filter_out: "find (\<lambda>r. row_id r = i) (filter (\<lambda>r. row_id r \<noteq> i) rs) = None"
  by (induction rs) auto

lemma set_row_other: "\<forall>r \<in> set rs. row_id r \<noteq> i \<Longrightarrow> map (set_row T c i) rs = rs"
  by (induction rs) (simp_all add: set_row_miss)

lemma filter_other: "\<forall>r \<in> set rs. row_id r \<noteq> i \<Longrightarrow> filter (\<lambda>r. row_id r \<noteq> i) rs = rs"
  by (induction rs) auto

lemma length_filter_distinct:
  "distinct (map row_id rs) \<Longrightarrow> i \<in> set (map row_id rs) \<Longrightarrow>
   Suc (length (filter (\<lambda>r. row_id r \<noteq> i) rs)) = length rs"
proof (induction rs)
  case Nil then show ?case by simp
next
  case (Cons r rs)
  show ?case
  proof (cases "row_id r = i")
    case True
    with Cons.prems have "i \<notin> set (map row_id rs)" by simp
    then have "\<forall>r' \<in> set rs. row_id r' \<noteq> i" by (rule not_in_ids)
    then have "filter (\<lambda>r. row_id r \<noteq> i) rs = rs" by (rule filter_other)
    with True show ?thesis by simp
  next
    case False
    with Cons show ?thesis by auto
  qed
qed

lemma todo_of_row_fields:
  "ID (todo_of_row r) = row_id r" "Title (todo_of_row r) = row_title r"
  "Completed (todo_of_row r) = row_completed r" "CreatedAt (todo_of_row r) = row_created_at r"
  by (cases r; simp add: todo_of_row_def row_id_def row_title_def row_completed_def
        row_created_at_def)+

lemma begin_stmt_todos_upd: "snd (begin_stmt (db\<lparr>todos := rs\<rparr>)) = (snd (begin_stmt db))\<lparr>todos := rs\<rparr>"
  by (simp add: begin_stmt_def split: list.splits)

lemma breaks_Create: "breaks (snd (Create T db)) = breaks db"
  by (simp add: Create_run Let_def split: option.splits)

lemma breaks_Delete: "breaks (snd (Delete i db)) = breaks db"
  by (simp add: Delete_run split: option.splits)

text \<open>
  As long as no cursor fails while it is stepped, the list of \<^verbatim>\<open>GetAll\<close> is one longer after
  a \<^verbatim>\<open>Create\<close> that succeeds and, the ids being pairwise distinct, one shorter after a
  \<^verbatim>\<open>Delete\<close> that succeeds on an id of the list.
\<close>

lemma GetAll_count_whole_cursors:
  assumes "breaks db = []"
  shows "(GetAll db = (Inr xs, db1) \<and> Create T db1 = (Inr t, db2) \<and> GetAll db2 = (Inr ys, db3)
            \<longrightarrow> length ys = length xs + 1)
       \<and> (primary_key db \<and> GetAll db = (Inr xs, db1) \<and> i \<in> ID ` set xs
            \<and> Delete i db1 = (None, db2') \<and> GetAll db2' = (Inr zs, db3')
            \<longrightarrow> length zs + 1 = length xs)"
proof (intro conjI impI)
  assume a: "GetAll db = (Inr xs, db1) \<and> Create T db1 = (Inr t, db2) \<and> GetAll db2 = (Inr ys, db3)"
  then have xs: "xs = map todo_of_row (todos db)" and db1: "todos db1 = todos db"
    and b1: "breaks db1 = []"
    unfolding GetAll_whole [OF assms] using assms by (auto split: option.splits)
  from a have "todos db2 = todos db1 @ [(ID t, T, False, clock db1)]"
    using Create_Inr(4) by blast
  moreover from a b1 breaks_Create [of T db1] have "breaks db2 = []" by simp
  with a have "ys = map todo_of_row (todos db2)"
    by (auto simp: GetAll_whole split: option.splits)
  ultimately show "length ys = length xs + 1"
    using xs db1 by simp
next
  assume a: "primary_key db \<and> GetAll db = (Inr xs, db1) \<and> i \<in> ID ` set xs
      \<and> Delete i db1 = (None, db2') \<and> GetAll db2' = (Inr zs, db3')"
  then have xs: "xs = map todo_of_row (todos db)" and db1: "todos db1 = todos db"
    and b1: "breaks db1 = []"
    unfolding GetAll_whole [OF assms] using assms by (auto split: option.splits)
  from a have db2: "todos db2' = filter (\<lambda>r. row_id r \<noteq> i) (todos db1)"
    unfolding Delete_run by (auto split: option.splits)
  from a b1 breaks_Delete [of i db1] have "breaks db2' = []" by simp
  with a have zs: "zs = map todo_of_row (todos db2')"
    by (auto simp: GetAll_whole split: option.splits)
  from a xs have "i \<in> set (map row_id (todos db))"
    by (auto simp: todo_of_row_fields image_iff)
  moreover from a have "distinct (map row_id (todos db))"
    by (simp add: primary_key_def ids_def)
  ultimately have "Suc (length (filter (\<lambda>r. row_id r \<noteq> i) (todos db))) = length (todos db)"
    by (intro length_filter_distinct)
  with xs zs db1 db2 show "length zs + 1 = length xs" by simp
qed

lemmas store_defs =
  Create_def GetByID_def GetAll_def Update_def Delete_def Exec_insert_def Exec_update_def
  Exec_delete_def QueryRow_id_def Query_all_def LastInsertId_def begin_stmt_def pending_def
  Scan_def todo_of_row_def set_row_def row_id_def row_title_def row_completed_def row_created_at_def
  max_rowid_def ids_def primary_key_def new_DB_def open_cursor_def

lemmas http_defs =
  todos_handler_def todo_handler_def Decode_Todo_def Decode_Todo_ptr_def unmarshal_Todo_def
  store_field_def fold_name_def upper_def Atoi_def ParseUint_def signed_range_def
  is_digit_def digit_val_def Encode_Todo_def Encode_Todos_def zero_Todo_def

section \<open>The primary key is kept\<close>

text \<open>
  A database that has never been used has pairwise distinct ids, and every operation of the
  store keeps them so, whatever it returns.
\<close>

lemma primary_key_new_DB: "primary_key (new_DB t fs bs)"
  by (simp add: primary_key_def ids_def new_DB_def)

lemma primary_key_begin_stmt: "primary_key (snd (begin_stmt db)) = primary_key db"
  by (simp add: primary_key_def ids_def)

lemma primary_key_open_cursor: "primary_key (snd (open_cursor db)) = primary_key db"
  by (simp add: primary_key_def ids_def)

lemma primary_key_GetAll: "primary_key db \<Longrightarrow> primary_key (snd (GetAll db))"
  unfolding GetAll_run
  by (simp add: primary_key_begin_stmt primary_key_open_cursor split: option.splits prod.splits)

lemma primary_key_GetByID: "primary_key db \<Longrightarrow> primary_key (snd (GetByID i db))"
  unfolding GetByID_run by (simp add: primary_key_begin_stmt split: option.splits)

lemma primary_key_Exec_insert:
  assumes "primary_key db"
  shows "primary_key (snd (Exec_insert T db))"
proof -
  let ?m = "fold max (ids db) (sqlite_sequence db)"
  have "?m + 1 \<notin> set (ids db)"
  proof
    assume "?m + 1 \<in> set (ids db)"
    then have "?m + 1 \<le> ?m" by (rule fold_max_mem)
    then show False by simp
  qed
  with assms show ?thesis
    unfolding Exec_insert_run
    by (simp add: primary_key_begin_stmt Let_def split: option.splits)
       (simp add: primary_key_def ids_def row_id_def)
qed

lemma primary_key_Create: "primary_key db \<Longrightarrow> primary_key (snd (Create T db))"
  using primary_key_Exec_insert [of db T]
  unfolding Create_def LastInsertId_def
  by (auto simp: primary_key_GetByID split: prod.splits sum.splits)

lemma primary_key_Update: "primary_key db \<Longrightarrow> primary_key (snd (Update todo db))"
  unfolding Update_run
  by (simp add: primary_key_begin_stmt split: option.splits)
     (simp add: primary_key_def ids_def comp_def row_id_set_row)

lemma primary_key_Delete: "primary_key db \<Longrightarrow> primary_key (snd (Delete i db))"
  unfolding Delete_run
  by (simp add: primary_key_begin_stmt split: option.splits)
     (simp add: primary_key_def ids_def distinct_map_filter)

section \<open>The decoder and \<^verbatim>\<open>Atoi\<close>: auxiliary facts\<close>

lemma store_field_title_empty:
  assumes "store_field parse_time key v todo = Inr (e, todo')"
    and "fold_name key = ''TITLE'' \<longrightarrow> v = JString []"
    and "Title todo = []"
  shows "Title todo' = []"
  using assms unfolding store_field_def
  by (auto simp: Let_def split: if_splits json.splits sum.splits option.splits)

lemma decode_fields_title_empty:
  assumes "decode_fields parse_time fs saved todo = Inr (e, todo')"
    and "\<forall>(key, v) \<in> set fs. fold_name key = ''TITLE'' \<longrightarrow> v = JString []"
    and "Title todo = []"
  shows "Title todo' = []"
  using assms
proof (induction fs arbitrary: saved todo)
  case Nil
  then show ?case by simp
next
  case (Cons f fs)
  obtain key v where f: "f = (key, v)" by (cases f)
  from Cons.prems(1) f obtain e1 todo1 where
    s: "store_field parse_time key v todo = Inr (e1, todo1)"
    and d: "decode_fields parse_time fs (if saved = None then e1 else saved) todo1 = Inr (e, todo')"
    by (auto split: sum.splits)
  from Cons.prems(2) f have "fold_name key = ''TITLE'' \<longrightarrow> v = JString []" by simp
  from store_field_title_empty [OF s this Cons.prems(3)] have "Title todo1 = []" .
  moreover from Cons.prems(2) have
    "\<forall>(key, v) \<in> set fs. fold_name key = ''TITLE'' \<longrightarrow> v = JString []" by simp
  ultimately show ?case using Cons.IH d by blast
qed

text \<open>The decoder accepts an object exactly when each member has the type of its field.\<close>

lemma store_field_typed:
  "member_has_type parse_time (key, v) \<Longrightarrow> \<exists>todo'. store_field parse_time key v todo = Inr (None, todo')"
  unfolding member_has_type_def store_field_def
  by (cases v) (auto simp: Let_def split: sum.splits)

lemma store_field_untyped:
  "\<not> member_has_type parse_time (key, v) \<Longrightarrow> store_field parse_time key v todo \<noteq> Inr (None, todo')"
  unfolding member_has_type_def store_field_def
  by (cases v) (auto simp: Let_def split: sum.splits if_splits)

lemma decode_fields_saved:
  "decode_fields parse_time fs (Some e) todo \<noteq> Inr (None, todo')"
  by (induction fs arbitrary: todo) (auto split: sum.splits)

lemma decode_fields_typed:
  "list_all (member_has_type parse_time) fs \<Longrightarrow>
   \<exists>todo'. decode_fields parse_time fs None todo = Inr (None, todo')"
proof (induction fs arbitrary: todo)
  case Nil
  then show ?case by simp
next
  case (Cons f fs)
  obtain key v where f: "f = (key, v)" by (cases f)
  from Cons.prems f obtain todo1 where "store_field parse_time key v todo = Inr (None, todo1)"
    using store_field_typed by fastforce
  moreover from Cons.prems Cons.IH obtain todo' where
    "decode_fields parse_time fs None todo1 = Inr (None, todo')" by fastforce
  ultimately show ?case using f by simp
qed

lemma decode_fields_untyped:
  "\<not> list_all (member_has_type parse_time) fs \<Longrightarrow>
   decode_fields parse_time fs None todo \<noteq> Inr (None, todo')"
proof (induction fs arbitrary: todo)
  case Nil
  then show ?case by simp
next
  case (Cons f fs)
  obtain key v where f: "f = (key, v)" by (cases f)
  show ?case
  proof (cases "member_has_type parse_time (key, v)")
    case True
    with Cons.prems f have "\<not> list_all (member_has_type parse_time) fs" by simp
    then have "\<And>t. decode_fields parse_time fs None t \<noteq> Inr (None, todo')"
      by (rule Cons.IH)
    moreover from True obtain todo1 where
      "store_field parse_time key v todo = Inr (None, todo1)"
      using store_field_typed by blast
    ultimately show ?thesis using f by simp
  next
    case False
    then have nt: "\<And>t. store_field parse_time key v todo \<noteq> Inr (None, t)"
      by (rule store_field_untyped)
    show ?thesis
    proof (cases "store_field parse_time key v todo")
      case (Inl err)
      with f show ?thesis by simp
    next
      case (Inr p)
      obtain e todo1 where p: "p = (e, todo1)" by (cases p)
      with Inr nt have "e \<noteq> None" by auto
      then obtain e' where "e = Some e'" by auto
      with Inr p f show ?thesis by (simp add: decode_fields_saved)
    qed
  qed
qed

lemma Decode_Todo_ptr_typed:
  assumes "list_all (member_has_type parse_time) fs"
  shows "\<exists>todo. Decode_Todo_ptr parse_time (Inr (JObject fs)) = Inr (Some todo)"
proof -
  from decode_fields_typed [OF assms] obtain todo where
    "decode_fields parse_time fs None zero_Todo = Inr (None, todo)" by blast
  then show ?thesis
    by (simp add: Decode_Todo_ptr_def unmarshal_Todo_def)
qed

lemma Decode_Todo_ptr_untyped:
  assumes "\<not> list_all (member_has_type parse_time) fs"
  shows "\<exists>err. Decode_Todo_ptr parse_time (Inr (JObject fs)) = Inl err"
  using decode_fields_untyped [OF assms, of zero_Todo]
  by (auto simp: Decode_Todo_ptr_def unmarshal_Todo_def split: sum.splits option.splits)

text \<open>What \<^verbatim>\<open>Atoi\<close> returns fits a 64-bit \<^verbatim>\<open>int\<close>.\<close>

lemma parse_digits_nonneg: "parse_digits s n = Inr m \<Longrightarrow> 0 \<le> n \<Longrightarrow> 0 \<le> m"
proof (induction s arbitrary: n)
  case Nil
  then show ?case by simp
next
  case (Cons c cs)
  from Cons.prems(1) have d: "is_digit c"
    and r: "parse_digits cs (n * 10 + digit_val c) = Inr m"
    by (auto split: if_splits)
  from d have "0 \<le> digit_val c" by (simp add: is_digit_def digit_val_def)
  with Cons.prems(2) have "0 \<le> n * 10 + digit_val c" by simp
  with Cons.IH r show ?case by blast
qed

lemma Atoi_range:
  assumes "Atoi s = Inr n"
  shows "- 9223372036854775808 \<le> n \<and> n \<le> 9223372036854775807"
proof (cases s)
  case Nil
  with assms show ?thesis by (simp add: Atoi_def)
next
  case (Cons c cs)
  define ds where "ds = (if c = CHR ''+'' \<or> c = CHR ''-'' then cs else c # cs)"
  from assms Cons obtain un where u: "ParseUint ds = Inr un"
    and sr: "signed_range (c = CHR ''-'') un = Inr n"
    unfolding ds_def by (auto simp: Atoi_def Let_def split: sum.splits)
  from u have "parse_digits ds 0 = Inr un"
    unfolding ParseUint_def by (cases "ds = []") simp_all
  then have "0 \<le> un" by (rule parse_digits_nonneg) simp
  with sr show ?thesis
    by (auto simp: signed_range_def split: if_splits)
qed

section \<open>Properties of the record store\<close>

text \<open>
  Claim C1. What \<^verbatim>\<open>Create(T)\<close> does, for every title and database: it appends the row
  \<open>(id, T, false, now)\<close> under an id one above every id the table holds or has held, and
  reads the row back under that id with a second statement, returning it; it fails only
  when the engine fails one of the two statements or the ids are used up, and in
  particular it succeeds whenever the engine fails nothing. When \<^verbatim>\<open>Create(T)\<close> returns a
  Todo, that Todo has title \<open>T\<close> and is not completed, it is the row appended, no earlier
  row carries its id, and \<^verbatim>\<open>GetByID\<close> on that id afterwards returns the same Todo, so its
  title is \<open>T\<close> and its \<^verbatim>\<open>completed\<close> is false, unless the engine fails that read.
\<close>

theorem Create_GetByID_roundtrip:
  "Create T db =
     (let m = fold max (ids db) (sqlite_sequence db);
          db1 = snd (begin_stmt db);
          db2 = db1\<lparr>todos := todos db @ [(m + 1, T, False, clock db)], sqlite_sequence := m + 1\<rparr>
      in case pending db of
           Some msg \<Rightarrow> (Inl (EngineError msg), db1)
         | None \<Rightarrow>
             if max_rowid \<le> m then (Inl (EngineError ''database or disk is full''), db1)
             else
               (case pending db2 of
                  Some msg \<Rightarrow> (Inl (EngineError msg), snd (begin_stmt db2))
                | None \<Rightarrow>
                    (Inr \<lparr>ID = m + 1, Title = T, Completed = False, CreatedAt = clock db\<rparr>,
                     snd (begin_stmt db2))))
   \<and> (faults db = [] \<and> fold max (ids db) (sqlite_sequence db) < max_rowid
        \<longrightarrow> (\<exists>t db'. Create T db = (Inr t, db')))
   \<and> (\<forall>t db'. Create T db = (Inr t, db') \<longrightarrow>
         Title t = T \<and> Completed t = False
       \<and> todos db' = todos db @ [(ID t, T, False, clock db)]
       \<and> Scan (ID t, T, False, clock db) = Inr t
       \<and> ID t \<notin> set (ids db)
       \<and> fst (GetByID (ID t) db') =
           (case pending db' of None \<Rightarrow> Inr t | Some msg \<Rightarrow> Inl (EngineError msg)))"
proof -
  have eq: "Create T db =
     (let m = fold max (ids db) (sqlite_sequence db);
          db1 = snd (begin_stmt db);
          db2 = db1\<lparr>todos := todos db @ [(m + 1, T, False, clock db)], sqlite_sequence := m + 1\<rparr>
      in case pending db of
           Some msg \<Rightarrow> (Inl (EngineError msg), db1)
         | None \<Rightarrow>
             if max_rowid \<le> m then (Inl (EngineError ''database or disk is full''), db1)
             else
               (case pending db2 of
                  Some msg \<Rightarrow> (Inl (EngineError msg), snd (begin_stmt db2))
                | None \<Rightarrow>
                    (Inr \<lparr>ID = m + 1, Title = T, Completed = False, CreatedAt = clock db\<rparr>,
                     snd (begin_stmt db2))))"
    by (rule Create_run)
  have succ: "faults db = [] \<and> fold max (ids db) (sqlite_sequence db) < max_rowid
        \<longrightarrow> (\<exists>t db'. Create T db = (Inr t, db'))"
    by (simp add: Create_run Let_def pending_def begin_stmt_def)
  have props: "\<forall>t db'. Create T db = (Inr t, db') \<longrightarrow>
         Title t = T \<and> Completed t = False
       \<and> todos db' = todos db @ [(ID t, T, False, clock db)]
       \<and> Scan (ID t, T, False, clock db) = Inr t
       \<and> ID t \<notin> set (ids db)
       \<and> fst (GetByID (ID t) db') =
           (case pending db' of None \<Rightarrow> Inr t | Some msg \<Rightarrow> Inl (EngineError msg))"
  proof (intro allI impI)
  fix t db'
  assume c: "Create T db = (Inr t, db')"
  let ?m = "fold max (ids db) (sqlite_sequence db)"
  have t: "t = \<lparr>ID = ?m + 1, Title = T, Completed = False, CreatedAt = clock db\<rparr>"
    and rows: "todos db' = todos db @ [(ID t, T, False, clock db)]"
    using Create_Inr [OF c] by blast+
  have fresh: "ID t \<notin> set (ids db)"
  proof
    assume "ID t \<in> set (ids db)"
    then have "ID t \<le> ?m" by (rule fold_max_mem)
    with t show False by simp
  qed
  have found: "find (\<lambda>r. row_id r = ID t) (todos db') = Some (ID t, T, False, clock db)"
    using find_new_row [of "todos db" "sqlite_sequence db" "(T, False, clock db)"] t rows
    by (simp add: ids_def)
  have get: "fst (GetByID (ID t) db') =
          (case pending db' of None \<Rightarrow> Inr t | Some msg \<Rightarrow> Inl (EngineError msg))"
    unfolding GetByID_run using found t
    by (simp add: todo_of_row_def split: option.splits)
  from t rows fresh get
  show "Title t = T \<and> Completed t = False
       \<and> todos db' = todos db @ [(ID t, T, False, clock db)]
       \<and> Scan (ID t, T, False, clock db) = Inr t
       \<and> ID t \<notin> set (ids db)
       \<and> fst (GetByID (ID t) db') =
           (case pending db' of None \<Rightarrow> Inr t | Some msg \<Rightarrow> Inl (EngineError msg))"
    by (simp add: Scan_def todo_of_row_def)
  qed
  from eq succ props show ?thesis by (intro conjI)
qed

theorem Create_GetByID_roundtrip_witness:
  "faults \<lparr>todos = [(1, ''milk'', False, 7), (2, ''eggs'', True, 8)],
        sqlite_sequence = 2, clock = 9, faults = [], breaks = []\<rparr> = []
   \<and> fold max (ids \<lparr>todos = [(1, ''milk'', False, 7), (2, ''eggs'', True, 8)],
        sqlite_sequence = 2, clock = 9, faults = [], breaks = []\<rparr>)
        (sqlite_sequence \<lparr>todos = [(1, ''milk'', False, 7), (2, ''eggs'', True, 8)],
        sqlite_sequence = 2, clock = 9, faults = [], breaks = []\<rparr>) < max_rowid
   \<and> Create ''tea'' \<lparr>todos = [(1, ''milk'', False, 7), (2, ''eggs'', True, 8)],
        sqlite_sequence = 2, clock = 9, faults = [], breaks = []\<rparr>
     = (Inr \<lparr>ID = 3, Title = ''tea'', Completed = False, CreatedAt = 9\<rparr>,
        \<lparr>todos = [(1, ''milk'', False, 7), (2, ''eggs'', True, 8), (3, ''tea'', False, 9)],
        sqlite_sequence = 3, clock = 9, faults = [], breaks = []\<rparr>)
   \<and> fst (GetByID 3
        \<lparr>todos = [(1, ''milk'', False, 7), (2, ''eggs'', True, 8), (3, ''tea'', False, 9)],
        sqlite_sequence = 3, clock = 9, faults = [], breaks = []\<rparr>)
     = Inr \<lparr>ID = 3, Title = ''tea'', Completed = False, CreatedAt = 9\<rparr>"
proof -
  let ?db = "\<lparr>todos = [(1, ''milk'', False, 7), (2, ''eggs'', True, 8)],
        sqlite_sequence = 2, clock = 9, faults = [], breaks = []\<rparr>"
  let ?db' = "\<lparr>todos = [(1, ''milk'', False, 7), (2, ''eggs'', True, 8), (3, ''tea'', False, 9)],
        sqlite_sequence = 3, clock = 9, faults = [], breaks = []\<rparr>"
  let ?t = "\<lparr>ID = 3, Title = ''tea'', Completed = False, CreatedAt = 9\<rparr>"
  have h1: "faults ?db = []" by simp
  have h2: "fold max (ids ?db) (sqlite_sequence ?db) < max_rowid" by (simp add: store_defs)
  have h: "Create ''tea'' ?db = (Inr ?t, ?db')"
    using Create_GetByID_roundtrip [of "''tea''" ?db, THEN conjunct1]
    by (simp add: store_defs Let_def)
  from Create_GetByID_roundtrip [of "''tea''" ?db, THEN conjunct2, THEN conjunct2,
      rule_format, OF h]
  have "fst (GetByID 3 ?db') = Inr ?t"
    by (simp add: pending_def begin_stmt_def)
  with h1 h2 h show ?thesis by (intro conjI)
qed



text \<open>
  Claim C3. After \<^verbatim>\<open>Delete(id)\<close> has succeeded, \<^verbatim>\<open>GetByID(id)\<close> never returns a Todo: it fails
  with \<^verbatim>\<open>sql.ErrNoRows\<close>, or with the engine's own error when the engine fails that read.
\<close>

theorem Delete_GetByID_not_found:
  assumes "Delete i db = (None, db')"
  shows "fst (GetByID i db') =
           (case pending db' of None \<Rightarrow> Inl ErrNoRows | Some msg \<Rightarrow> Inl (EngineError msg))
       \<and> (\<forall>t. fst (GetByID i db') \<noteq> Inr t)"
proof -
  from assms have rows: "todos db' = filter (\<lambda>r. row_id r \<noteq> i) (todos db)"
    unfolding Delete_run by (auto split: option.splits)
  have "find (\<lambda>r. row_id r = i) (todos db') = None"
    unfolding rows by (rule find_filter_out)
  then have "fst (GetByID i db') =
           (case pending db' of None \<Rightarrow> Inl ErrNoRows | Some msg \<Rightarrow> Inl (EngineError msg))"
    unfolding GetByID_run by (simp split: option.splits)
  then show ?thesis by (simp split: option.splits)
qed

theorem Delete_GetByID_not_found_witness:
  "Delete 1 \<lparr>todos = [(1, ''milk'', False, 7), (2, ''eggs'', True, 8)],
             sqlite_sequence = 2, clock = 9, faults = [], breaks = []\<rparr>
     = (None, \<lparr>todos = [(2, ''eggs'', True, 8)], sqlite_sequence = 2, clock = 9, faults = [], breaks = []\<rparr>)
   \<and> fst (GetByID 1 \<lparr>todos = [(2, ''eggs'', True, 8)], sqlite_sequence = 2, clock = 9, faults = [], breaks = []\<rparr>)
     = Inl ErrNoRows"
proof -
  have h: "Delete 1 \<lparr>todos = [(1, ''milk'', False, 7), (2, ''eggs'', True, 8)],
             sqlite_sequence = 2, clock = 9, faults = [], breaks = []\<rparr>
     = (None, \<lparr>todos = [(2, ''eggs'', True, 8)], sqlite_sequence = 2, clock = 9, faults = [], breaks = []\<rparr>)"
    by (simp add: store_defs)
  from Delete_GetByID_not_found [OF h] show ?thesis
    using h by (simp add: pending_def begin_stmt_def)
qed

text \<open>
  Claim C4. When no row has the Todo's id, \<^verbatim>\<open>Update\<close> changes no row and returns no error, and
  when no row has the id, \<^verbatim>\<open>Delete\<close> does the same; the only error either returns is the
  one the engine raises for the statement.
\<close>

theorem Update_Delete_no_match:
  assumes "ID todo \<notin> set (ids db)" and "i \<notin> set (ids db)"
  shows "Update todo db =
           (case pending db of None \<Rightarrow> None | Some msg \<Rightarrow> Some (EngineError msg), snd (begin_stmt db))
       \<and> Delete i db =
           (case pending db of None \<Rightarrow> None | Some msg \<Rightarrow> Some (EngineError msg), snd (begin_stmt db))
       \<and> todos (snd (begin_stmt db)) = todos db"
proof -
  from assms(1) have "\<forall>r \<in> set (todos db). row_id r \<noteq> ID todo"
    unfolding ids_def by (rule not_in_ids)
  then have u: "map (set_row (Title todo) (Completed todo) (ID todo)) (todos db) = todos (snd (begin_stmt db))"
    by (simp add: set_row_other)
  from assms(2) have "\<forall>r \<in> set (todos db). row_id r \<noteq> i"
    unfolding ids_def by (rule not_in_ids)
  then have d: "filter (\<lambda>r. row_id r \<noteq> i) (todos db) = todos (snd (begin_stmt db))"
    by (simp add: filter_other)
  show ?thesis
    unfolding Update_run Delete_run u d
    by (simp split: option.splits)
qed

theorem Update_Delete_no_match_witness:
  "ID \<lparr>ID = 5, Title = ''tea'', Completed = True, CreatedAt = 0\<rparr>
     \<notin> set (ids \<lparr>todos = [(1, ''milk'', False, 7)], sqlite_sequence = 2, clock = 9, faults = [], breaks = []\<rparr>)
   \<and> (5::int) \<notin> set (ids \<lparr>todos = [(1, ''milk'', False, 7)], sqlite_sequence = 2, clock = 9, faults = [], breaks = []\<rparr>)
   \<and> Update \<lparr>ID = 5, Title = ''tea'', Completed = True, CreatedAt = 0\<rparr>
        \<lparr>todos = [(1, ''milk'', False, 7)], sqlite_sequence = 2, clock = 9, faults = [], breaks = []\<rparr>
     = (None, \<lparr>todos = [(1, ''milk'', False, 7)], sqlite_sequence = 2, clock = 9, faults = [], breaks = []\<rparr>)
   \<and> Delete 5 \<lparr>todos = [(1, ''milk'', False, 7)], sqlite_sequence = 2, clock = 9, faults = [], breaks = []\<rparr>
     = (None, \<lparr>todos = [(1, ''milk'', False, 7)], sqlite_sequence = 2, clock = 9, faults = [], breaks = []\<rparr>)"
proof -
  let ?db = "\<lparr>todos = [(1, ''milk'', False, 7)], sqlite_sequence = 2, clock = 9, faults = [], breaks = []\<rparr>"
  let ?todo = "\<lparr>ID = 5, Title = ''tea'', Completed = True, CreatedAt = 0\<rparr>"
  have h1: "ID ?todo \<notin> set (ids ?db)" by (simp add: store_defs)
  have h2: "(5::int) \<notin> set (ids ?db)" by (simp add: store_defs)
  from Update_Delete_no_match [OF h1 h2] show ?thesis
    using h1 h2 by (simp add: pending_def begin_stmt_def)
qed

text \<open>
  Claim C7 says that the list of \<^verbatim>\<open>GetAll\<close> is one longer after each successful \<^verbatim>\<open>Create\<close> and
  one shorter after each successful \<^verbatim>\<open>Delete\<close>. The code keeps this as long as every cursor
  delivers all its rows (lemma \<open>GetAll_count_whole_cursors\<close>), and breaks it when a cursor
  fails while it is stepped: \<^verbatim>\<open>GetAll\<close> leaves its loop without consulting \<^verbatim>\<open>rows.Err()\<close> and
  returns the rows read so far with a nil error. Here \<^verbatim>\<open>GetAll\<close> lists two Todos, \<^verbatim>\<open>Create\<close>
  adds a third, and the next \<^verbatim>\<open>GetAll\<close>, whose cursor fails after one row, succeeds with a
  list of one.
\<close>

theorem GetAll_count_broken_cursor:
  "GetAll \<lparr>todos = [(1, ''milk'', False, 7), (2, ''eggs'', True, 8)],
        sqlite_sequence = 2, clock = 9, faults = [], breaks = [None, Some (1, ''interrupted'')]\<rparr>
     = (Inr [\<lparr>ID = 1, Title = ''milk'', Completed = False, CreatedAt = 7\<rparr>,
             \<lparr>ID = 2, Title = ''eggs'', Completed = True, CreatedAt = 8\<rparr>],
        \<lparr>todos = [(1, ''milk'', False, 7), (2, ''eggs'', True, 8)],
        sqlite_sequence = 2, clock = 9, faults = [], breaks = [Some (1, ''interrupted'')]\<rparr>)
   \<and> Create ''tea'' \<lparr>todos = [(1, ''milk'', False, 7), (2, ''eggs'', True, 8)],
        sqlite_sequence = 2, clock = 9, faults = [], breaks = [Some (1, ''interrupted'')]\<rparr>
     = (Inr \<lparr>ID = 3, Title = ''tea'', Completed = False, CreatedAt = 9\<rparr>,
        \<lparr>todos = [(1, ''milk'', False, 7), (2, ''eggs'', True, 8), (3, ''tea'', False, 9)],
        sqlite_sequence = 3, clock = 9, faults = [], breaks = [Some (1, ''interrupted'')]\<rparr>)
   \<and> GetAll \<lparr>todos = [(1, ''milk'', False, 7), (2, ''eggs'', True, 8), (3, ''tea'', False, 9)],
        sqlite_sequence = 3, clock = 9, faults = [], breaks = [Some (1, ''interrupted'')]\<rparr>
     = (Inr [\<lparr>ID = 1, Title = ''milk'', Completed = False, CreatedAt = 7\<rparr>],
        \<lparr>todos = [(1, ''milk'', False, 7), (2, ''eggs'', True, 8), (3, ''tea'', False, 9)],
        sqlite_sequence = 3, clock = 9, faults = [], breaks = []\<rparr>)"
  by (simp add: store_defs)

text \<open>
  Claim C8. Whatever \<^verbatim>\<open>Update\<close> returns, the table has as many rows as before, every row
  keeps its id and its \<^verbatim>\<open>created_at\<close>, and a row whose id is not the Todo's is left as it
  was; the id counter and the clock are untouched.
\<close>

theorem Update_frame:
  assumes "Update todo db = (res, db')"
  shows "length (todos db') = length (todos db)
       \<and> sqlite_sequence db' = sqlite_sequence db \<and> clock db' = clock db
       \<and> (\<forall>k < length (todos db).
            row_id (todos db' ! k) = row_id (todos db ! k)
          \<and> row_created_at (todos db' ! k) = row_created_at (todos db ! k)
          \<and> (row_id (todos db ! k) \<noteq> ID todo \<longrightarrow> todos db' ! k = todos db ! k))"
proof (cases "pending db")
  case (Some msg)
  with assms have "db' = snd (begin_stmt db)"
    unfolding Update_run by simp
  then show ?thesis by simp
next
  case None
  with assms have db': "db' = (snd (begin_stmt db))
       \<lparr>todos := map (set_row (Title todo) (Completed todo) (ID todo)) (todos db)\<rparr>"
    unfolding Update_run by simp
  show ?thesis
    unfolding db' by (simp add: row_id_set_row row_created_at_set_row set_row_miss)
qed

theorem Update_frame_witness:
  "Update \<lparr>ID = 2, Title = ''six eggs'', Completed = False, CreatedAt = 0\<rparr>
        \<lparr>todos = [(1, ''milk'', False, 7), (2, ''eggs'', True, 8)],
         sqlite_sequence = 2, clock = 9, faults = [], breaks = []\<rparr>
     = (None, \<lparr>todos = [(1, ''milk'', False, 7), (2, ''six eggs'', False, 8)],
         sqlite_sequence = 2, clock = 9, faults = [], breaks = []\<rparr>)
   \<and> row_id ([(1, ''milk'', False, 7), (2, ''six eggs'', False, 8)] ! 1)
       = row_id ([(1, ''milk'', False, 7), (2, ''eggs'', True, 8 :: int)] ! 1)
   \<and> row_created_at ([(1, ''milk'', False, 7), (2, ''six eggs'', False, 8)] ! 1)
       = row_created_at ([(1, ''milk'', False, 7), (2, ''eggs'', True, 8)] ! 1)
   \<and> [(1::int, ''milk'', False, 7::int), (2, ''six eggs'', False, 8)] ! 0
       = [(1, ''milk'', False, 7), (2, ''eggs'', True, 8)] ! 0"
proof -
  let ?db = "\<lparr>todos = [(1, ''milk'', False, 7), (2, ''eggs'', True, 8)],
                   sqlite_sequence = 2, clock = 9, faults = [], breaks = []\<rparr>"
  let ?todo = "\<lparr>ID = 2, Title = ''six eggs'', Completed = False, CreatedAt = 0\<rparr>"
  let ?db' = "\<lparr>todos = [(1, ''milk'', False, 7), (2, ''six eggs'', False, 8)],
         sqlite_sequence = 2, clock = 9, faults = [], breaks = []\<rparr>"
  have h: "Update ?todo ?db = (None, ?db')" by (simp add: store_defs)
  from Update_frame [OF h] show ?thesis
    using h by (simp add: row_id_def row_created_at_def)
qed

section \<open>Properties of the handlers\<close>



text \<open>
  Claim C6. When \<^verbatim>\<open>Atoi\<close> refuses what follows \<^verbatim>\<open>/todos/\<close> in the path, the handler answers 400
  with that \<^verbatim>\<open>NumError\<close>, for every method and body, and leaves the database alone.
\<close>

theorem bad_id_is_400:
  assumes "Path r = ''/todos/'' @ suffix" and "Atoi suffix = Inl err"
  shows "todo_handler parse_time r db = (Respond 400 (ErrorText err), db)
       \<and> (\<exists>cause. err = NumError suffix cause)"
  using assms by (auto simp: todo_handler_def Atoi_def split: sum.splits)

theorem bad_id_is_400_witness:
  "Atoi ''abc'' = Inl (NumError ''abc'' ErrSyntax)
   \<and> todo_handler (\<lambda>s. None)
        \<lparr>Method = ''GET'', Path = ''/todos/abc'', Body = Inl (SyntaxError ''EOF'')\<rparr>
        \<lparr>todos = [(1, ''milk'', False, 7)], sqlite_sequence = 1, clock = 9, faults = [], breaks = []\<rparr>
       = (Respond 400 (ErrorText (NumError ''abc'' ErrSyntax)),
          \<lparr>todos = [(1, ''milk'', False, 7)], sqlite_sequence = 1, clock = 9, faults = [], breaks = []\<rparr>)"
proof -
  let ?r = "\<lparr>Method = ''GET'', Path = ''/todos/abc'', Body = Inl (SyntaxError ''EOF'')\<rparr>"
  have h1: "Path ?r = ''/todos/'' @ ''abc''" by simp
  have h2: "Atoi ''abc'' = Inl (NumError ''abc'' ErrSyntax)" by (simp add: http_defs)
  from bad_id_is_400 [OF h1 h2] show ?thesis
    using h2 by simp
qed

text \<open>
  Claim C9, amended. A POST whose body is a JSON object in which every member that names
  the title field (in any letter case) is the empty string, none included. When every
  member has the JSON type of the field it names, the handler rejects nothing and calls
  \<^verbatim>\<open>Create\<close> with the empty title, answering 200 with the created Todo, or 500 with the
  store's error; when the engine fails nothing, the answer is 200 and a row with the empty
  title has been appended. When some member has another type, the answer is 400 and
  nothing is stored.
\<close>

theorem POST_without_title:
  assumes "Method r = ''POST''"
    and "Body r = Inr (JObject fs)"
    and "\<forall>(key, v) \<in> set fs. fold_name key = ''TITLE'' \<longrightarrow> v = JString []"
  shows "(list_all (member_has_type parse_time) fs \<longrightarrow>
            todos_handler parse_time r db =
              (case Create [] db of
                 (Inl err, db') \<Rightarrow> (Respond 500 (ErrorText err), db')
               | (Inr todo', db') \<Rightarrow> (Respond 200 (JSONTodo todo'), db'))
          \<and> (faults db = [] \<and> fold max (ids db) (sqlite_sequence db) < max_rowid \<longrightarrow>
                todos_handler parse_time r db =
                  (Respond 200 (JSONTodo \<lparr>ID = fold max (ids db) (sqlite_sequence db) + 1,
                                           Title = [], Completed = False, CreatedAt = clock db\<rparr>),
                   db\<lparr>todos := todos db @
                          [(fold max (ids db) (sqlite_sequence db) + 1, [], False, clock db)],
                      sqlite_sequence := fold max (ids db) (sqlite_sequence db) + 1\<rparr>)))
       \<and> (\<not> list_all (member_has_type parse_time) fs \<longrightarrow>
            (\<exists>err. todos_handler parse_time r db = (Respond 400 (ErrorText err), db)))"
proof (intro conjI impI)
  assume typed: "list_all (member_has_type parse_time) fs"
  from Decode_Todo_ptr_typed [OF typed] obtain todo where
    p: "Decode_Todo_ptr parse_time (Inr (JObject fs)) = Inr (Some todo)" by blast
  then have "unmarshal_Todo parse_time (JObject fs) zero_Todo = Inr todo"
    by (auto simp: Decode_Todo_ptr_def split: sum.splits)
  then obtain e where "decode_fields parse_time fs None zero_Todo = Inr (e, todo)"
    by (auto simp: unmarshal_Todo_def split: sum.splits option.splits)
  from decode_fields_title_empty [OF this assms(3)] have t: "Title todo = []"
    by (simp add: zero_Todo_def)
  show run: "todos_handler parse_time r db =
              (case Create [] db of
                 (Inl err, db') \<Rightarrow> (Respond 500 (ErrorText err), db')
               | (Inr todo', db') \<Rightarrow> (Respond 200 (JSONTodo todo'), db'))"
    using assms(1,2) p t
    by (simp add: todos_handler_def Encode_Todo_def split: prod.splits sum.splits)
  assume "faults db = [] \<and> fold max (ids db) (sqlite_sequence db) < max_rowid"
  then show "todos_handler parse_time r db =
                  (Respond 200 (JSONTodo \<lparr>ID = fold max (ids db) (sqlite_sequence db) + 1,
                                           Title = [], Completed = False, CreatedAt = clock db\<rparr>),
                   db\<lparr>todos := todos db @
                          [(fold max (ids db) (sqlite_sequence db) + 1, [], False, clock db)],
                      sqlite_sequence := fold max (ids db) (sqlite_sequence db) + 1\<rparr>)"
    unfolding run by (simp add: Create_run Let_def pending_def begin_stmt_def)
next
  assume "\<not> list_all (member_has_type parse_time) fs"
  from Decode_Todo_ptr_untyped [OF this] obtain err where
    "Decode_Todo_ptr parse_time (Inr (JObject fs)) = Inl err" by blast
  with assms(1,2) show "\<exists>err. todos_handler parse_time r db = (Respond 400 (ErrorText err), db)"
    by (simp add: todos_handler_def)
qed

theorem POST_without_title_witness:
  "list_all (member_has_type (\<lambda>s. None)) [(''completed'', JBool True)]
   \<and> faults \<lparr>todos = [(1, ''milk'', False, 7)], sqlite_sequence = 1, clock = 9, faults = [], breaks = []\<rparr> = []
   \<and> fold max (ids \<lparr>todos = [(1, ''milk'', False, 7)], sqlite_sequence = 1, clock = 9, faults = [], breaks = []\<rparr>) (sqlite_sequence \<lparr>todos = [(1, ''milk'', False, 7)], sqlite_sequence = 1, clock = 9, faults = [], breaks = []\<rparr>) < max_rowid
   \<and> todos_handler (\<lambda>s. None)
        \<lparr>Method = ''POST'', Path = ''/todos'',
         Body = Inr (JObject [(''completed'', JBool True)])\<rparr>
        \<lparr>todos = [(1, ''milk'', False, 7)], sqlite_sequence = 1, clock = 9, faults = [], breaks = []\<rparr>
       = (Respond 200 (JSONTodo \<lparr>ID = 2, Title = [], Completed = False, CreatedAt = 9\<rparr>),
          \<lparr>todos = [(1, ''milk'', False, 7), (2, [], False, 9)],
           sqlite_sequence = 2, clock = 9, faults = [], breaks = []\<rparr>)
   \<and> list_all (member_has_type (\<lambda>s. None)) [(''Title'', JString []), (''id'', JNumber ''5'')]
   \<and> todos_handler (\<lambda>s. None)
        \<lparr>Method = ''POST'', Path = ''/todos'',
         Body = Inr (JObject [(''Title'', JString []), (''id'', JNumber ''5'')])\<rparr>
        \<lparr>todos = [(1, ''milk'', False, 7)], sqlite_sequence = 1, clock = 9, faults = [], breaks = []\<rparr>
       = (Respond 200 (JSONTodo \<lparr>ID = 2, Title = [], Completed = False, CreatedAt = 9\<rparr>),
          \<lparr>todos = [(1, ''milk'', False, 7), (2, [], False, 9)],
           sqlite_sequence = 2, clock = 9, faults = [], breaks = []\<rparr>)"
proof -
  let ?fs = "[(''completed'', JBool True)]"
  let ?gs = "[(''Title'', JString []), (''id'', JNumber ''5'')]"
  let ?r = "\<lparr>Method = ''POST'', Path = ''/todos'', Body = Inr (JObject ?fs)\<rparr>"
  let ?q = "\<lparr>Method = ''POST'', Path = ''/todos'', Body = Inr (JObject ?gs)\<rparr>"
  let ?db = "\<lparr>todos = [(1, ''milk'', False, 7)], sqlite_sequence = 1, clock = 9, faults = [], breaks = []\<rparr>"
  have r1: "Method ?r = ''POST''" by simp
  have r2: "Body ?r = Inr (JObject ?fs)" by simp
  have r3: "\<forall>(key, v) \<in> set ?fs. fold_name key = ''TITLE'' \<longrightarrow> v = JString []"
    by code_simp
  have r4: "list_all (member_has_type (\<lambda>s. None)) ?fs" by code_simp
  have q1: "Method ?q = ''POST''" by simp
  have q2: "Body ?q = Inr (JObject ?gs)" by simp
  have q3: "\<forall>(key, v) \<in> set ?gs. fold_name key = ''TITLE'' \<longrightarrow> v = JString []"
    by code_simp
  have q4: "list_all (member_has_type (\<lambda>s. None)) ?gs" by code_simp
  have e1: "faults ?db = []" by simp
  have e2: "fold max (ids ?db) (sqlite_sequence ?db) < max_rowid" by (simp add: store_defs)
  from e1 e2 have e: "faults ?db = [] \<and> fold max (ids ?db) (sqlite_sequence ?db) < max_rowid" ..
  have "todos_handler (\<lambda>s. None) ?r ?db =
          (Respond 200 (JSONTodo \<lparr>ID = 2, Title = [], Completed = False, CreatedAt = 9\<rparr>),
           \<lparr>todos = [(1, ''milk'', False, 7), (2, [], False, 9)],
           sqlite_sequence = 2, clock = 9, faults = [], breaks = []\<rparr>)"
    using POST_without_title [OF r1 r2 r3, of "\<lambda>s. None" ?db, THEN conjunct1, rule_format,
        OF r4, THEN conjunct2, rule_format, OF e]
    by (simp add: store_defs)
  moreover have "todos_handler (\<lambda>s. None) ?q ?db =
          (Respond 200 (JSONTodo \<lparr>ID = 2, Title = [], Completed = False, CreatedAt = 9\<rparr>),
           \<lparr>todos = [(1, ''milk'', False, 7), (2, [], False, 9)],
           sqlite_sequence = 2, clock = 9, faults = [], breaks = []\<rparr>)"
    using POST_without_title [OF q1 q2 q3, of "\<lambda>s. None" ?db, THEN conjunct1, rule_format,
        OF q4, THEN conjunct2, rule_format, OF e]
    by (simp add: store_defs)
  moreover note r4 q4 e1 e2
  ultimately show ?thesis by (intro conjI)
qed

text \<open>
  Claim C9 as it was stated, for every object without a title, fails: the object
  \<^verbatim>\<open>{"id": "x"}\<close> has no title member, and the handler answers 400 and stores nothing.
\<close>

theorem POST_without_title_counterexample:
  "fold_name ''id'' \<noteq> ''TITLE''
   \<and> todos_handler (\<lambda>s. None)
        \<lparr>Method = ''POST'', Path = ''/todos'', Body = Inr (JObject [(''id'', JString ''x'')])\<rparr>
        \<lparr>todos = [(1, ''milk'', False, 7)], sqlite_sequence = 1, clock = 9, faults = [], breaks = []\<rparr>
       = (Respond 400 (ErrorText (UnmarshalTypeError ''string'' ''id'')), \<lparr>todos = [(1, ''milk'', False, 7)], sqlite_sequence = 1, clock = 9, faults = [], breaks = []\<rparr>)"
  by code_simp

text \<open>
  Claim C10. The body \<^verbatim>\<open>null\<close> decodes without error into a nil \<^verbatim>\<open>*Todo\<close>, and the POST handler
  then panics on \<^verbatim>\<open>todo.Title\<close>: it answers neither 400 nor 500, and the database is as
  before.
\<close>

theorem POST_null_panics:
  "Decode_Todo_ptr parse_time (Inr JNull) = Inr None
   \<and> todos_handler parse_time \<lparr>Method = ''POST'', Path = ''/todos'', Body = Inr JNull\<rparr> db
       = (Panicked, db)"
  by (simp add: todos_handler_def Decode_Todo_ptr_def)

theorem POST_null_panics_witness:
  "todos_handler (\<lambda>s. None) \<lparr>Method = ''POST'', Path = ''/todos'', Body = Inr JNull\<rparr>
     \<lparr>todos = [(1, ''milk'', False, 7)], sqlite_sequence = 1, clock = 9, faults = [], breaks = []\<rparr>
   = (Panicked, \<lparr>todos = [(1, ''milk'', False, 7)], sqlite_sequence = 1, clock = 9, faults = [], breaks = []\<rparr>)"
  using POST_null_panics [of "\<lambda>s. None"
      "\<lparr>todos = [(1, ''milk'', False, 7)], sqlite_sequence = 1, clock = 9, faults = [], breaks = []\<rparr>"]
  by simp

end
